theory Spec2Isabelle
  imports Main "HOL-Library.AList" "HOL-Library.Char_ord" "HOL-Library.List_Lexorder"
begin

section \<open>Strings, paths and the file system\<close>

text \<open>
  File contents are byte lists. A path is the list of its components below the root, so
  \<open>heic_file.parent / "jpg files"\<close> is \<open>butlast p @ [''jpg files'']\<close>. The file system is an
  association list from paths to nodes; the order of the list is the order in which the
  operating system enumerates entries (\<open>os.listdir\<close>, \<open>Path.glob\<close>), which the code does not
  control. The root \<open>[]\<close> is always a directory.
\<close>

type_synonym bytes = "nat list"
type_synonym path = "string list"

datatype node = File bytes | Dir

type_synonym fs = "(path \<times> node) list"

definition lookup :: "fs \<Rightarrow> path \<Rightarrow> node option" where
  "lookup d p = (if p = [] then Some Dir else map_of d p)"

definition path_exists :: "fs \<Rightarrow> path \<Rightarrow> bool" where
  "path_exists d p = (lookup d p \<noteq> None)"

definition is_file :: "fs \<Rightarrow> path \<Rightarrow> bool" where
  "is_file d p = (case lookup d p of Some (File b) \<Rightarrow> True | _ \<Rightarrow> False)"

definition is_dir :: "fs \<Rightarrow> path \<Rightarrow> bool" where
  "is_dir d p = (lookup d p = Some Dir)"

definition parent :: "path \<Rightarrow> path" where
  "parent p = butlast p"

definition listdir :: "fs \<Rightarrow> path \<Rightarrow> string list" where
  "listdir d p = map (\<lambda>e. last (fst e)) (filter (\<lambda>e. fst e \<noteq> [] \<and> parent (fst e) = p) d)"

text \<open>
  \<open>mkdir(parents=True, exist_ok=True)\<close> and \<open>os.makedirs(..., exist_ok=True)\<close>: walk down from
  the root, create what is missing, and raise when a component exists as a regular file.
\<close>

fun mkdirs :: "fs \<Rightarrow> path \<Rightarrow> path \<Rightarrow> string + fs" where
  "mkdirs d pre [] = Inr d"
| "mkdirs d pre (c # cs) =
     (case lookup d (pre @ [c]) of
        Some Dir \<Rightarrow> mkdirs d (pre @ [c]) cs
      | Some (File b) \<Rightarrow> Inl (if cs = [] then ''FileExistsError'' else ''NotADirectoryError'')
      | None \<Rightarrow> mkdirs (d @ [(pre @ [c], Dir)]) (pre @ [c]) cs)"

definition makedirs :: "fs \<Rightarrow> path \<Rightarrow> string + fs" where
  "makedirs d p = mkdirs d [] p"

text \<open>
  Opening a path for writing: it fails on a directory and when the parent is not a
  directory; otherwise the file is created or replaced.
\<close>

definition write_file :: "fs \<Rightarrow> path \<Rightarrow> bytes \<Rightarrow> string + fs" where
  "write_file d p b =
     (if p = [] \<or> is_dir d p then Inl ''IsADirectoryError''
      else if \<not> is_dir d (parent p) then Inl ''FileNotFoundError''
      else Inr (AList.update p (File b) d))"

text \<open>
  \<open>str.lower()\<close>. Names are byte strings here and only the letters \<open>A\<close> to \<open>Z\<close> are folded;
  Python folds every cased letter, so for names with cased letters outside ASCII the
  model compares more strictly than the code.
\<close>

definition lower_char :: "char \<Rightarrow> char" where
  "lower_char c =
     (case map_of (zip ''ABCDEFGHIJKLMNOPQRSTUVWXYZ'' ''abcdefghijklmnopqrstuvwxyz'') c of
        Some l \<Rightarrow> l | None \<Rightarrow> c)"

definition lower :: "string \<Rightarrow> string" where
  "lower s = map lower_char s"

definition endswith :: "string \<Rightarrow> string \<Rightarrow> bool" where
  "endswith s suf = (take (length suf) (rev s) = rev suf)"

text \<open>\<open>str(n)\<close> for a non-negative integer.\<close>

definition digit :: "nat \<Rightarrow> char" where
  "digit n = ''0123456789'' ! n"

function str_nat :: "nat \<Rightarrow> string" where
  "str_nat n = (if n < 10 then [digit n] else str_nat (n div 10) @ [digit (n mod 10)])"
  by pat_completeness auto
termination
  by (relation "measure (\<lambda>n. n)") auto

declare str_nat.simps [simp del]

text \<open>
  \<open>os.path.splitext\<close> (POSIX): the extension starts at the last dot of the last component,
  unless only dots precede it there.
\<close>

definition splitext :: "string \<Rightarrow> string \<times> string" where
  "splitext p =
     (let ext_rev = takeWhile (\<lambda>c. c \<noteq> CHR ''.'' \<and> c \<noteq> CHR ''/'') (rev p);
          rest = drop (length ext_rev) (rev p)
      in case rest of
           [] \<Rightarrow> (p, [])
         | c # pre_rev \<Rightarrow>
             if c = CHR ''.'' \<and>
                (\<exists>x \<in> set (takeWhile (\<lambda>c. c \<noteq> CHR ''/'') pre_rev). x \<noteq> CHR ''.'')
             then (rev pre_rev, CHR ''.'' # rev ext_rev)
             else (p, []))"

section \<open>The imaging library\<close>

text \<open>
  Pillow with the HEIF opener is outside the repository. The code uses four of its
  operations, each of which may raise; the model takes them as a parameter and returns the
  exception's text in \<open>Inl\<close>. \<open>Image.open\<close> is applied to the bytes of the input, and
  \<open>img.save(path, "JPEG", quality)\<close> encodes and then writes the target file; a failed save
  leaves the file system as it was.
\<close>

record 'img pillow =
  Image_open :: "bytes \<Rightarrow> string + 'img"
  mode :: "'img \<Rightarrow> string"
  convert_RGB :: "'img \<Rightarrow> string + 'img"
  encode_JPEG :: "'img \<Rightarrow> int \<Rightarrow> string + bytes"

definition to_rgb :: "'img pillow \<Rightarrow> 'img \<Rightarrow> string + 'img" where
  "to_rgb lib img =
     (if mode lib img = ''RGBA'' \<or> mode lib img = ''P'' then convert_RGB lib img else Inr img)"

definition save :: "'img pillow \<Rightarrow> fs \<Rightarrow> 'img \<Rightarrow> path \<Rightarrow> int \<Rightarrow> string + fs" where
  "save lib d img p quality =
     (case encode_JPEG lib img quality of
        Inl e \<Rightarrow> Inl e
      | Inr jpg \<Rightarrow> write_file d p jpg)"

text \<open>
  A small instance of the library for evaluating the code on examples: an image is its
  bytes, empty input is not an image, and encoding puts the JPEG marker in front.
\<close>

definition demo_lib :: "bytes pillow" where
  "demo_lib =
     \<lparr> Image_open = (\<lambda>b. if b = [] then Inl ''cannot identify image file'' else Inr b),
       mode = (\<lambda>img. ''RGB''),
       convert_RGB = (\<lambda>img. Inr img),
       encode_JPEG = (\<lambda>img q. Inr (255 # 216 # img)) \<rparr>"

section \<open>The web application (app.py)\<close>

definition TEMP_DIR :: path where
  "TEMP_DIR = [''tmp'', ''heic_converter'']"

record upload =
  filename :: string
  content :: bytes

datatype converted = Converted (original: string) (converted_name: string) (size: nat)

datatype failed = Failed (name: string) (error: string)

record loop_state =
  disk :: fs
  converted_files :: "converted list"
  failed_files :: "failed list"
  file_counter :: "string \<rightharpoonup> nat"

definition fail :: "string \<Rightarrow> string \<Rightarrow> loop_state \<Rightarrow> loop_state" where
  "fail fname e s = s\<lparr>failed_files := failed_files s @ [Failed fname e]\<rparr>"

text \<open>The duplicate handling of lines 83 to 88: the new counter and the output name.\<close>

definition next_name :: "(string \<rightharpoonup> nat) \<Rightarrow> string \<Rightarrow> (string \<rightharpoonup> nat) \<times> string" where
  "next_name fc base_name =
     (case fc base_name of
        Some n \<Rightarrow> (fc(base_name \<mapsto> n + 1), base_name @ ''_'' @ str_nat (n + 1) @ ''.jpg'')
      | None \<Rightarrow> (fc(base_name \<mapsto> 0), base_name @ ''.jpg''))"

text \<open>
  \<open>os.path.join(session_dir, jpg_filename)\<close> (line 90) keeps the uploaded name as it was
  written: a name that starts with a separator replaces the directory, any other name is
  read from the directory on. The operating system then walks the components of the
  name: an empty component and \<open>.\<close> stay, \<open>..\<close> goes up, every other component but the last
  must be an existing directory.
\<close>

fun split_on :: "char \<Rightarrow> string \<Rightarrow> string list" where
  "split_on c [] = [[]]"
| "split_on c (x # xs) =
     (if x = c then [] # split_on c xs
      else (case split_on c xs of
              w # ws \<Rightarrow> (x # w) # ws
            | [] \<Rightarrow> [[x]]))"

definition os_path_join :: "path \<Rightarrow> string \<Rightarrow> path \<times> string list" where
  "os_path_join dir nm =
     (if nm \<noteq> [] \<and> hd nm = CHR ''/'' then ([], split_on CHR ''/'' nm)
      else (dir, split_on CHR ''/'' nm))"

fun walk :: "fs \<Rightarrow> path \<Rightarrow> string list \<Rightarrow> string + path" where
  "walk d cur [] = Inr cur"
| "walk d cur (c # cs) =
     (if c = [] \<or> c = ''.'' then walk d cur cs
      else if c = ''..'' then walk d (butlast cur) cs
      else if cs = [] then Inr (cur @ [c])
      else if is_dir d (cur @ [c]) then walk d (cur @ [c]) cs
      else Inl (if path_exists d (cur @ [c]) then ''NotADirectoryError''
                else ''FileNotFoundError''))"

text \<open>
  \<open>img.save(jpg_path, "JPEG", quality=95)\<close> on a joined path: the result is the new file
  system and the path of the file written, which \<open>os.path.getsize\<close> then reads.
\<close>

definition save_joined ::
  "'img pillow \<Rightarrow> fs \<Rightarrow> 'img \<Rightarrow> path \<times> string list \<Rightarrow> int \<Rightarrow> string + fs \<times> path" where
  "save_joined lib d img jpg_path quality =
     (case encode_JPEG lib img quality of
        Inl e \<Rightarrow> Inl e
      | Inr jpg \<Rightarrow>
          (case walk d (fst jpg_path) (snd jpg_path) of
             Inl e \<Rightarrow> Inl e
           | Inr p \<Rightarrow>
               (case write_file d p jpg of
                  Inl e \<Rightarrow> Inl e
                | Inr d' \<Rightarrow> Inr (d', p))))"

text \<open>The body of the loop over the uploaded files (lines 52 to 107).\<close>

definition process_file :: "'img pillow \<Rightarrow> path \<Rightarrow> upload \<Rightarrow> loop_state \<Rightarrow> loop_state" where
  "process_file lib session_dir file s =
     (if filename file = [] then s
      else if \<not> (endswith (lower (filename file)) ''.heic'' \<or>
                  endswith (lower (filename file)) ''.heif'')
      then fail (filename file) ''Not a HEIC/HEIF file'' s
      else if length (content file) = 0 then fail (filename file) ''Empty file'' s
      else case Image_open lib (content file) of
        Inl e \<Rightarrow> fail (filename file) e s
      | Inr img0 \<Rightarrow>
         (case to_rgb lib img0 of
            Inl e \<Rightarrow> fail (filename file) e s
          | Inr img \<Rightarrow>
             (let nn = next_name (file_counter s) (fst (splitext (filename file)));
                  s1 = s\<lparr>file_counter := fst nn\<rparr>;
                  jpg_path = os_path_join session_dir (snd nn)
              in case save_joined lib (disk s1) img jpg_path 95 of
                   Inl e \<Rightarrow> fail (filename file) e s1
                 | Inr w \<Rightarrow>
                     (case lookup (fst w) (snd w) of
                        Some (File b) \<Rightarrow>
                          s1\<lparr>disk := fst w,
                             converted_files := converted_files s1 @
                               [Converted (filename file) (snd nn) (length b)]\<rparr>
                      | _ \<Rightarrow> fail (filename file) ''FileNotFoundError''
                               (s1\<lparr>disk := fst w\<rparr>)))))"

fun process_files :: "'img pillow \<Rightarrow> path \<Rightarrow> upload list \<Rightarrow> loop_state \<Rightarrow> loop_state" where
  "process_files lib session_dir [] s = s"
| "process_files lib session_dir (f # rest) s =
     process_files lib session_dir rest (process_file lib session_dir f s)"

datatype response =
    Error400 string "failed list option"
  | Success (session_id: string) (converted: "converted list") (failed: "failed list")
            (total_converted: nat) (total_failed: nat)
  | Error404 string
  | SendFile path string bytes
  | Unhandled string

text \<open>
  \<open>request.files\<close> is a multi-dictionary: a list of (field name, upload) pairs. The
  identifier returned by \<open>uuid.uuid4()\<close> is an input of the model.
\<close>

definition getlist :: "(string \<times> upload) list \<Rightarrow> string \<Rightarrow> upload list" where
  "getlist form k = map snd (filter (\<lambda>e. fst e = k) form)"

definition init_state :: "fs \<Rightarrow> loop_state" where
  "init_state d = \<lparr>disk = d, converted_files = [], failed_files = [], file_counter = Map.empty\<rparr>"

definition convert_files ::
  "'img pillow \<Rightarrow> string \<Rightarrow> (string \<times> upload) list \<Rightarrow> fs \<Rightarrow> response \<times> fs" where
  "convert_files lib uuid4 form d =
     (if ''files'' \<notin> fst ` set form then (Error400 ''No files uploaded'' None, d)
      else let files = getlist form ''files'' in
        if files = [] \<or> (\<forall>f \<in> set files. filename f = []) then
          (Error400 ''No files selected'' None, d)
        else case makedirs d (TEMP_DIR @ [uuid4]) of
          Inl e \<Rightarrow> (Unhandled e, d)
        | Inr d1 \<Rightarrow>
           (let s = process_files lib (TEMP_DIR @ [uuid4]) files (init_state d1)
            in if converted_files s = [] then
                 (Error400 ''No files were converted'' (Some (failed_files s)), disk s)
               else
                 (Success uuid4 (converted_files s) (failed_files s)
                    (length (converted_files s)) (length (failed_files s)), disk s)))"

text \<open>A request-level error of the convert endpoint: a JSON body with \<open>error\<close>, status 400.\<close>

definition request_error :: "response \<Rightarrow> bool" where
  "request_error r = (case r of Error400 m fl \<Rightarrow> True | _ \<Rightarrow> False)"

text \<open>
  The download endpoint (lines 129 to 169). The ZIP serialisation of a list of
  (archive name, bytes) members is the \<open>zipfile\<close> library's and is a parameter. An
  exception that no handler catches is the response \<open>Unhandled\<close>.
\<close>

definition download_zip ::
  "((string \<times> bytes) list \<Rightarrow> bytes) \<Rightarrow> string \<Rightarrow> fs \<Rightarrow> response \<times> fs" where
  "download_zip zip_bytes sid d =
     (let session_dir = TEMP_DIR @ [sid] in
      if \<not> path_exists d session_dir then (Error404 ''Session not found or expired'', d)
      else if \<not> is_dir d session_dir then (Unhandled ''NotADirectoryError'', d)
      else let files_to_zip = listdir d session_dir in
        if files_to_zip = [] then (Error404 ''No files to download'', d)
        else let zip_path = TEMP_DIR @ [sid @ ''.zip''];
                 members = concat (map (\<lambda>fname.
                             case lookup d (session_dir @ [fname]) of
                               Some (File b) \<Rightarrow> [(fname, b)] | _ \<Rightarrow> []) files_to_zip)
             in case write_file d zip_path (zip_bytes members) of
                  Inl e \<Rightarrow> (Unhandled e, d)
                | Inr d' \<Rightarrow> (SendFile zip_path ''converted_images.zip'' (zip_bytes members), d'))"

section \<open>The command line tool (convert\_heic\_cli.py)\<close>

text \<open>
  The state is the file system and the lines printed so far. A function returns a value,
  or an exception leaves it (\<open>Raised\<close>); with no path arguments \<open>main\<close> enters the
  interactive mode, which reads the terminal and is not modelled further.
\<close>

record cli_state =
  fsys :: fs
  printed :: "string list"

datatype 'a outcome = Returned 'a | Raised string | Interactive

definition emit :: "string \<Rightarrow> cli_state \<Rightarrow> cli_state" where
  "emit line s = s\<lparr>printed := printed s @ [line]\<rparr>"

definition str_path :: "path \<Rightarrow> string" where
  "str_path p = concat (map (\<lambda>c. CHR ''/'' # c) p)"

definition name_of :: "path \<Rightarrow> string" where
  "name_of p = (if p = [] then [] else last p)"

text \<open>\<open>PurePath.stem\<close>: the name up to its last dot, when that dot is neither first nor last.\<close>

definition stem :: "string \<Rightarrow> string" where
  "stem nm =
     (let ext_rev = takeWhile (\<lambda>c. c \<noteq> CHR ''.'') (rev nm)
      in if length ext_rev < length nm \<and> 0 < length nm - length ext_rev - 1 \<and> ext_rev \<noteq> []
         then take (length nm - length ext_rev - 1) nm else nm)"

definition open_path :: "'img pillow \<Rightarrow> fs \<Rightarrow> path \<Rightarrow> string + 'img" where
  "open_path lib d p =
     (case lookup d p of
        Some (File b) \<Rightarrow> Image_open lib b
      | Some Dir \<Rightarrow> Inl ''IsADirectoryError''
      | None \<Rightarrow> Inl ''FileNotFoundError'')"

text \<open>The \<open>try\<close> block of lines 63 to 76.\<close>

definition open_convert_save :: "'img pillow \<Rightarrow> fs \<Rightarrow> path \<Rightarrow> path \<Rightarrow> int \<Rightarrow> string + fs" where
  "open_convert_save lib d heic_path jpg_path quality =
     (case open_path lib d heic_path of
        Inl e \<Rightarrow> Inl e
      | Inr img0 \<Rightarrow>
          (case to_rgb lib img0 of
             Inl e \<Rightarrow> Inl e
           | Inr img \<Rightarrow> save lib d img jpg_path quality))"

text \<open>
  \<open>convert_heic_to_jpg\<close> in three parts: the output directory (lines 48 to 53), the name of
  the target (line 55), and the skip or conversion into that directory (lines 56 to 76).
\<close>

definition resolve_output_dir :: "fs \<Rightarrow> path \<Rightarrow> path option \<Rightarrow> string + path \<times> fs" where
  "resolve_output_dir d heic_path output_dir =
     (case output_dir of
        Some od \<Rightarrow> (case makedirs d od of Inl e \<Rightarrow> Inl e | Inr d1 \<Rightarrow> Inr (od, d1))
      | None \<Rightarrow> Inr (parent heic_path, d))"

definition jpg_name :: "path \<Rightarrow> string" where
  "jpg_name heic_path = stem (name_of heic_path) @ ''.jpg''"

definition convert_into ::
  "'img pillow \<Rightarrow> path \<Rightarrow> path \<Rightarrow> int \<Rightarrow> cli_state \<Rightarrow> path option outcome \<times> cli_state" where
  "convert_into lib heic_path od quality s =
     (if path_exists (fsys s) (od @ [jpg_name heic_path]) then
        (Returned (Some (od @ [jpg_name heic_path])),
         emit (''  Skipped (exists): '' @ jpg_name heic_path) s)
      else case open_convert_save lib (fsys s) heic_path (od @ [jpg_name heic_path]) quality of
        Inl e \<Rightarrow>
          (Returned None, emit (''  Failed: '' @ name_of heic_path @ '' - '' @ e) s)
      | Inr d2 \<Rightarrow>
          (Returned (Some (od @ [jpg_name heic_path])),
           emit (''  Converted: '' @ name_of heic_path @ '' -> '' @ jpg_name heic_path)
             (s\<lparr>fsys := d2\<rparr>)))"

definition convert_heic_to_jpg ::
  "'img pillow \<Rightarrow> path \<Rightarrow> path option \<Rightarrow> int \<Rightarrow> cli_state \<Rightarrow> path option outcome \<times> cli_state" where
  "convert_heic_to_jpg lib heic_path output_dir quality s =
     (if \<not> path_exists (fsys s) heic_path then
        (Returned None, emit (''  Error: File not found - '' @ str_path heic_path) s)
      else case resolve_output_dir (fsys s) heic_path output_dir of
        Inl e \<Rightarrow> (Raised e, s)
      | Inr r \<Rightarrow> convert_into lib heic_path (fst r) quality (s\<lparr>fsys := snd r\<rparr>))"

text \<open>
  \<open>Path.glob("*" + ext)\<close> and \<open>Path.rglob("*" + ext)\<close>: the entries directly in, or anywhere
  below, the folder whose name ends with \<open>ext\<close>, in the order of enumeration. Whether the
  match looks at the case of letters depends on the platform (it does on POSIX, it does
  not on Windows), which is the parameter \<open>cs\<close>.
\<close>

definition matches :: "bool \<Rightarrow> string \<Rightarrow> string \<Rightarrow> bool" where
  "matches cs nm ext = (if cs then endswith nm ext else endswith (lower nm) (lower ext))"

definition glob :: "bool \<Rightarrow> fs \<Rightarrow> path \<Rightarrow> string \<Rightarrow> path list" where
  "glob cs d folder ext =
     map fst (filter (\<lambda>e. fst e \<noteq> [] \<and> parent (fst e) = folder \<and> matches cs (last (fst e)) ext) d)"

definition rglob :: "bool \<Rightarrow> fs \<Rightarrow> path \<Rightarrow> string \<Rightarrow> path list" where
  "rglob cs d folder ext =
     map fst (filter (\<lambda>e. length folder < length (fst e) \<and>
                          take (length folder) (fst e) = folder \<and>
                          matches cs (last (fst e)) ext) d)"

text \<open>The duplicate removal of lines 106 to 113.\<close>

fun unique_files :: "string set \<Rightarrow> path list \<Rightarrow> path list" where
  "unique_files seen [] = []"
| "unique_files seen (f # rest) =
     (if lower (str_path f) \<notin> seen
      then f # unique_files (insert (lower (str_path f)) seen) rest
      else unique_files seen rest)"

text \<open>
  \<open>sorted\<close> on paths compares the component lists, letter case included on POSIX and
  folded on Windows.
\<close>

definition sorted_paths :: "bool \<Rightarrow> path list \<Rightarrow> path list" where
  "sorted_paths cs ps = (if cs then sort_key (\<lambda>p. p) ps else sort_key (map lower) ps)"

text \<open>The loop of lines 125 to 136.\<close>

fun folder_loop ::
  "'img pillow \<Rightarrow> bool \<Rightarrow> int \<Rightarrow> path list \<Rightarrow> nat \<times> nat \<Rightarrow> cli_state \<Rightarrow>
     (nat \<times> nat) outcome \<times> cli_state" where
  "folder_loop lib create_subfolder quality [] cf s = (Returned cf, s)"
| "folder_loop lib create_subfolder quality (heic_file # rest) cf s =
     (let output_dir = (if create_subfolder then parent heic_file @ [''jpg files'']
                        else parent heic_file)
      in case convert_heic_to_jpg lib heic_file (Some output_dir) quality s of
           (Returned r, s') \<Rightarrow>
             folder_loop lib create_subfolder quality rest
               (if r \<noteq> None then (fst cf + 1, snd cf) else (fst cf, snd cf + 1)) s'
         | (Raised e, s') \<Rightarrow> (Raised e, s')
         | (Interactive, s') \<Rightarrow> (Interactive, s'))"

definition find_heic :: "bool \<Rightarrow> fs \<Rightarrow> path \<Rightarrow> bool \<Rightarrow> path list" where
  "find_heic cs d folder_path recursive =
     unique_files {}
       (if recursive then
          rglob cs d folder_path ''.heic'' @ rglob cs d folder_path ''.HEIC'' @
          rglob cs d folder_path ''.heif'' @ rglob cs d folder_path ''.HEIF''
        else
          glob cs d folder_path ''.heic'' @ glob cs d folder_path ''.HEIC'' @
          glob cs d folder_path ''.heif'' @ glob cs d folder_path ''.HEIF'')"

definition convert_folder ::
  "'img pillow \<Rightarrow> bool \<Rightarrow> path \<Rightarrow> bool \<Rightarrow> bool \<Rightarrow> int \<Rightarrow> cli_state \<Rightarrow>
     (nat \<times> nat) outcome \<times> cli_state" where
  "convert_folder lib cs folder_path recursive create_subfolder quality s =
     (if \<not> path_exists (fsys s) folder_path then
        (Returned (0, 0), emit (''Error: Folder not found - '' @ str_path folder_path) s)
      else let heic_files = find_heic cs (fsys s) folder_path recursive in
        if heic_files = [] then
          (Returned (0, 0), emit (''No HEIC files found in: '' @ str_path folder_path) s)
        else
          (case folder_loop lib create_subfolder quality (sorted_paths cs heic_files) (0, 0)
                  (emit (''Found '' @ str_nat (length heic_files) @ '' HEIC file(s)'')
                     (emit (CHR 0x0A # ''Processing: '' @ str_path folder_path) s)) of
             (Returned (c, f), s') \<Rightarrow>
               (Returned (c, f),
                emit (''Completed: '' @ str_nat c @ '' converted, '' @ str_nat f @ '' failed'') s')
           | (Raised e, s') \<Rightarrow> (Raised e, s')
           | (Interactive, s') \<Rightarrow> (Interactive, s')))"

record args =
  paths :: "path list"
  recursive :: bool
  output_dir :: "path option"
  quality :: int
  no_subfolder :: bool

text \<open>
  The loop of lines 239 to 262 and \<open>main\<close> from line 231 on. Paths are given parsed, and
  \<open>output_dir\<close> is \<open>None\<close> when \<open>-o\<close> is absent or empty, which the test of line 49 treats
  alike.
\<close>

fun main_loop ::
  "'img pillow \<Rightarrow> bool \<Rightarrow> args \<Rightarrow> path list \<Rightarrow> nat \<times> nat \<Rightarrow> cli_state \<Rightarrow>
     (nat \<times> nat) outcome \<times> cli_state" where
  "main_loop lib cs a [] tot s = (Returned tot, s)"
| "main_loop lib cs a (p # rest) tot s =
     (if is_file (fsys s) p then
        (case convert_heic_to_jpg lib p (output_dir a) (quality a) s of
           (Returned r, s') \<Rightarrow>
             main_loop lib cs a rest
               (if r \<noteq> None then (fst tot + 1, snd tot) else (fst tot, snd tot + 1)) s'
         | (Raised e, s') \<Rightarrow> (Raised e, s')
         | (Interactive, s') \<Rightarrow> (Interactive, s'))
      else if is_dir (fsys s) p then
        (case convert_folder lib cs p (recursive a) (\<not> no_subfolder a) (quality a) s of
           (Returned (c, f), s') \<Rightarrow> main_loop lib cs a rest (fst tot + c, snd tot + f) s'
         | (Raised e, s') \<Rightarrow> (Raised e, s')
         | (Interactive, s') \<Rightarrow> (Interactive, s'))
      else main_loop lib cs a rest tot (emit (''Warning: Path not found - '' @ str_path p) s))"

definition main ::
  "'img pillow \<Rightarrow> bool \<Rightarrow> args \<Rightarrow> cli_state \<Rightarrow> (nat \<times> nat) outcome \<times> cli_state" where
  "main lib cs a s =
     (if paths a = [] then (Interactive, s)
      else case main_loop lib cs a (paths a) (0, 0) s of
             (Returned (c, f), s') \<Rightarrow>
               (Returned (c, f),
                emit (replicate 50 CHR ''='')
                  (emit (''TOTAL: '' @ str_nat c @ '' converted, '' @ str_nat f @ '' failed'')
                     (emit (CHR 0x0A # replicate 50 CHR ''='') s')))
           | (Raised e, s') \<Rightarrow> (Raised e, s')
           | (Interactive, s') \<Rightarrow> (Interactive, s'))"

text \<open>
  A file system is well formed when every entry lies in a directory that is itself present.
\<close>

definition wf_fs :: "fs \<Rightarrow> bool" where
  "wf_fs d = (\<forall>e \<in> set d. fst e \<noteq> [] \<and> is_dir d (parent (fst e)))"

section \<open>Example inputs\<close>

definition disk0 :: fs where
  "disk0 = [([''tmp''], Dir), ([''tmp'', ''heic_converter''], Dir)]"

definition form_txt :: "(string \<times> upload) list" where
  "form_txt = [(''files'', \<lparr>filename = ''a.txt'', content = [1]\<rparr>)]"

definition form_mixed :: "(string \<times> upload) list" where
  "form_mixed =
     [(''files'', \<lparr>filename = ''a.heic'', content = [1]\<rparr>),
      (''files'', \<lparr>filename = [], content = []\<rparr>),
      (''files'', \<lparr>filename = ''b.txt'', content = [2]\<rparr>)]"

definition form_collide :: "(string \<times> upload) list" where
  "form_collide =
     [(''files'', \<lparr>filename = ''a.heic'', content = [1]\<rparr>),
      (''files'', \<lparr>filename = ''a.heic'', content = [2]\<rparr>),
      (''files'', \<lparr>filename = ''a_1.heic'', content = [3]\<rparr>)]"

definition form_subdir :: "(string \<times> upload) list" where
  "form_subdir = [(''files'', \<lparr>filename = ''sub/a.heic'', content = [1]\<rparr>)]"

definition form_parent :: "(string \<times> upload) list" where
  "form_parent = [(''files'', \<lparr>filename = ''../a.heic'', content = [1]\<rparr>)]"

definition form_twice :: "(string \<times> upload) list" where
  "form_twice =
     [(''files'', \<lparr>filename = ''a.heic'', content = [1]\<rparr>),
      (''files'', \<lparr>filename = ''a.heic'', content = [2]\<rparr>)]"

definition demo_zip :: "(string \<times> bytes) list \<Rightarrow> bytes" where
  "demo_zip ms = concat (map (\<lambda>m. 80 # 75 # snd m) ms)"

definition args0 :: args where
  "args0 = \<lparr>paths = [], recursive = False, output_dir = None, quality = 95,
            no_subfolder = False\<rparr>"

definition start :: "fs \<Rightarrow> cli_state" where
  "start d = \<lparr>fsys = d, printed = []\<rparr>"

definition disk_pics :: fs where
  "disk_pics = [([''pics''], Dir), ([''pics'', ''x.heic''], File [7]), ([''out''], Dir)]"

definition disk_mixed_case :: fs where
  "disk_mixed_case = [([''pics''], Dir), ([''pics'', ''x.Heic''], File [7])]"




definition disk_empty_done :: fs where
  "disk_empty_done =
     [([''pics''], Dir), ([''pics'', ''e.heic''], File []), ([''pics'', ''e.jpg''], File [1, 2])]"

definition disk_case_variants :: fs where
  "disk_case_variants =
     [([''pics''], Dir), ([''pics'', ''x.HEIC''], File [8]), ([''pics'', ''b.heif''], File [9]),
      ([''pics'', ''x.heic''], File [7])]"

definition disk_session :: fs where
  "disk_session =
     disk0 @
       [(TEMP_DIR @ [''s1''], Dir),
        (TEMP_DIR @ [''s1'', ''a.jpg''], File [255, 216, 1]),
        (TEMP_DIR @ [''s1'', ''a_1.jpg''], File [255, 216, 2])]"

definition disk_zipped :: fs where
  "disk_zipped =
     disk_session @ [(TEMP_DIR @ [''s1.zip''], File [80, 75, 255, 216, 1, 80, 75, 255, 216, 2])]"

section \<open>File system lemmas\<close>

lemma lookup_update:
  "lookup (AList.update p n d) q = (if q = p \<and> p \<noteq> [] then Some n else lookup d q)"
  by (simp add: lookup_def update_conv')

lemma lookup_append:
  "lookup d k = None \<Longrightarrow> lookup (d @ [(k, v)]) q = (if q = k then Some v else lookup d q)"
  by (auto simp: lookup_def map_add_def split: option.splits if_splits)

lemma write_file_lookup:
  "write_file d p b = Inr d' \<Longrightarrow> lookup d' q = (if q = p then Some (File b) else lookup d q)"
  by (auto simp: write_file_def lookup_update split: if_splits)

lemma mkdirs_is_dir:
  "mkdirs d pre cs = Inr d' \<Longrightarrow> is_dir d pre \<Longrightarrow> is_dir d' (pre @ cs)"
proof (induction cs arbitrary: d pre)
  case Nil
  then show ?case by simp
next
  case (Cons c cs)
  show ?case
  proof (cases "lookup d (pre @ [c])")
    case None
    with Cons.prems have "mkdirs (d @ [(pre @ [c], Dir)]) (pre @ [c]) cs = Inr d'" by simp
    moreover have "is_dir (d @ [(pre @ [c], Dir)]) (pre @ [c])"
      using None by (simp add: is_dir_def lookup_append)
    ultimately show ?thesis using Cons.IH by fastforce
  next
    case (Some n)
    with Cons.prems have n: "n = Dir" and m: "mkdirs d (pre @ [c]) cs = Inr d'"
      by (cases n; simp)+
    with Some have "is_dir d (pre @ [c])" by (simp add: is_dir_def)
    with m show ?thesis using Cons.IH by fastforce
  qed
qed

lemma makedirs_is_dir: "makedirs d p = Inr d' \<Longrightarrow> is_dir d' p"
  using mkdirs_is_dir [of d "[]" p d'] by (simp add: makedirs_def is_dir_def lookup_def)

lemma save_other:
  "save lib d img p q = Inr d' \<Longrightarrow> x \<noteq> p \<Longrightarrow> lookup d' x = lookup d x"
  by (cases "encode_JPEG lib img q") (simp_all add: save_def write_file_lookup [of d p _ d' x])

lemma save_target:
  "save lib d img p q = Inr d' \<Longrightarrow>
     \<exists>b. encode_JPEG lib img q = Inr b \<and> lookup d' p = Some (File b)"
  by (cases "encode_JPEG lib img q") (simp_all add: save_def write_file_lookup [of d p _ d' p])

section \<open>The convert endpoint\<close>

lemmas web_eval = convert_files_def getlist_def makedirs_def TEMP_DIR_def disk0_def lookup_def
  process_file_def endswith_def lower_def lower_char_def fail_def is_dir_def path_exists_def
  init_state_def

lemma getlist_nonempty: "getlist form k \<noteq> [] \<longleftrightarrow> k \<in> fst ` set form"
  by (force simp: getlist_def filter_empty_conv)

lemma write_file_keeps_dir:
  "write_file d p b = Inr d' \<Longrightarrow> is_dir d x \<Longrightarrow> is_dir d' x"
  by (auto simp: write_file_def is_dir_def lookup_update split: if_splits)

lemma save_joined_keeps_dir:
  "save_joined lib d img jp q = Inr w \<Longrightarrow> is_dir d x \<Longrightarrow> is_dir (fst w) x"
  by (auto simp: save_joined_def split: sum.splits dest: write_file_keeps_dir)

lemma process_file_is_dir:
  assumes "is_dir (disk s) sd"
  shows "is_dir (disk (process_file lib sd f s)) sd"
  using assms
  by (auto simp: process_file_def fail_def Let_def
      split: sum.splits option.splits node.splits
      dest: save_joined_keeps_dir [OF _ assms])

lemma process_files_is_dir:
  "is_dir (disk s) sd \<Longrightarrow> is_dir (disk (process_files lib sd fl s)) sd"
  by (induction fl arbitrary: s) (auto simp: process_file_is_dir)

text \<open>
  C1, as the specification states it, fails: a request whose only file is \<open>a.txt\<close> converts
  nothing and is answered with "No files were converted", yet the session directory, absent
  before the request, is on disk after it.
\<close>

theorem session_dir_without_success:
  "fst (convert_files demo_lib ''s1'' form_txt disk0) =
     Error400 ''No files were converted'' (Some [Failed ''a.txt'' ''Not a HEIC/HEIF file'']) \<and>
   \<not> path_exists disk0 (TEMP_DIR @ [''s1'']) \<and>
   is_dir (snd (convert_files demo_lib ''s1'' form_txt disk0)) (TEMP_DIR @ [''s1''])"
  by (simp add: web_eval form_txt_def)

text \<open>
  C1, amended: for every request that names at least one file, the session directory is
  created before any file is processed (lines 43 to 45): the loop over the files starts
  from the file system that already holds the directory, the directory is there after
  every number of processed files, and it is on disk when the request returns, whatever
  the number of files that converted.
\<close>

theorem session_dir_created_eagerly:
  assumes "\<exists>f \<in> set (getlist form ''files''). filename f \<noteq> []"
    and "makedirs d (TEMP_DIR @ [sid]) = Inr d1"
  shows "snd (convert_files lib sid form d) =
           disk (process_files lib (TEMP_DIR @ [sid]) (getlist form ''files'') (init_state d1)) \<and>
         (\<forall>k. is_dir (disk (process_files lib (TEMP_DIR @ [sid])
                              (take k (getlist form ''files'')) (init_state d1)))
                     (TEMP_DIR @ [sid])) \<and>
         is_dir d1 (TEMP_DIR @ [sid]) \<and>
         is_dir (snd (convert_files lib sid form d)) (TEMP_DIR @ [sid])"
proof -
  have dir1: "is_dir d1 (TEMP_DIR @ [sid])"
    using assms(2) by (rule makedirs_is_dir)
  from assms(1) have ne: "getlist form ''files'' \<noteq> []" by auto
  then have field: "''files'' \<in> fst ` set form"
    by (simp add: getlist_nonempty)
  have loop: "is_dir (disk (process_files lib (TEMP_DIR @ [sid]) fl (init_state d1)))
                (TEMP_DIR @ [sid])" for fl
    using dir1 by (simp add: process_files_is_dir init_state_def)
  have run: "snd (convert_files lib sid form d) =
           disk (process_files lib (TEMP_DIR @ [sid]) (getlist form ''files'') (init_state d1))"
    using assms ne field by (auto simp: convert_files_def Let_def)
  from run loop dir1 show ?thesis by simp
qed

text \<open>C1, amended, at the request with the single file \<open>a.txt\<close>, which converts nothing.\<close>

theorem session_dir_created_eagerly_witness:
  "is_dir (snd (convert_files demo_lib ''s1'' form_txt disk0)) (TEMP_DIR @ [''s1'']) \<and>
   is_dir (disk (process_files demo_lib (TEMP_DIR @ [''s1''])
                   (take 0 (getlist form_txt ''files''))
                   (init_state (disk0 @ [(TEMP_DIR @ [''s1''], Dir)])))) (TEMP_DIR @ [''s1'']) \<and>
   fst (convert_files demo_lib ''s1'' form_txt disk0) =
     Error400 ''No files were converted'' (Some [Failed ''a.txt'' ''Not a HEIC/HEIF file''])"
proof -
  have h1: "\<exists>f \<in> set (getlist form_txt ''files''). filename f \<noteq> []"
    by (simp add: getlist_def form_txt_def)
  have h2: "makedirs disk0 (TEMP_DIR @ [''s1'']) = Inr (disk0 @ [(TEMP_DIR @ [''s1''], Dir)])"
    by (simp add: web_eval)
  have "fst (convert_files demo_lib ''s1'' form_txt disk0) =
     Error400 ''No files were converted'' (Some [Failed ''a.txt'' ''Not a HEIC/HEIF file''])"
    by (simp add: web_eval form_txt_def)
  with session_dir_created_eagerly [OF h1 h2, of demo_lib] show ?thesis by blast
qed

lemmas web_eval2 = web_eval demo_lib_def to_rgb_def next_name_def splitext_def save_joined_def
  os_path_join_def write_file_def
   parent_def str_nat.simps digit_def

lemma process_file_counts:
  "length (converted_files (process_file lib sd f s)) + length (failed_files (process_file lib sd f s)) =
   length (converted_files s) + length (failed_files s) + (if filename f = [] then 0 else 1)"
  by (auto simp: process_file_def fail_def Let_def split: sum.splits option.splits node.splits)

lemma process_files_counts:
  "length (converted_files (process_files lib sd fl s)) + length (failed_files (process_files lib sd fl s)) =
   length (converted_files s) + length (failed_files s) + length (filter (\<lambda>f. filename f \<noteq> []) fl)"
  by (induction fl arbitrary: s) (auto simp: process_file_counts)

lemma process_file_names:
  assumes "\<forall>c \<in> set (converted_files s). original c \<noteq> []" "\<forall>x \<in> set (failed_files s). name x \<noteq> []"
  shows "(\<forall>c \<in> set (converted_files (process_file lib sd f s)). original c \<noteq> []) \<and>
     (\<forall>x \<in> set (failed_files (process_file lib sd f s)). name x \<noteq> [])"
  using assms
  by (auto simp: process_file_def fail_def Let_def split: sum.splits option.splits node.splits)

lemma process_files_names:
  "\<forall>c \<in> set (converted_files s). original c \<noteq> [] \<Longrightarrow> \<forall>x \<in> set (failed_files s). name x \<noteq> [] \<Longrightarrow>
    (\<forall>c \<in> set (converted_files (process_files lib sd fl s)). original c \<noteq> []) \<and>
     (\<forall>x \<in> set (failed_files (process_files lib sd fl s)). name x \<noteq> [])"
proof (induction fl arbitrary: s)
  case Nil
  then show ?case by simp
next
  case (Cons f fl)
  from process_file_names [OF Cons.prems, of lib sd f] Cons.IH [of "process_file lib sd f s"]
  show ?case by simp
qed

lemma length_filter_drop: "x \<in> set xs \<Longrightarrow> \<not> P x \<Longrightarrow> length (filter P xs) < length xs"
  by (induction xs) (auto simp: less_Suc_eq_le)

text \<open>
  C5: when the session directory can be created, the convert endpoint answers with a
  request-level error exactly when the uploaded list is empty, or every entry has an empty
  name, or no file converted; in every other case, failures included, the answer is the
  success body with the session id, both lists and both counts.
\<close>

theorem convert_request_error_iff:
  assumes "makedirs d (TEMP_DIR @ [sid]) = Inr d1"
  shows "let files = getlist form ''files'';
             s = process_files lib (TEMP_DIR @ [sid]) files (init_state d1);
             r = fst (convert_files lib sid form d)
         in (request_error r \<longleftrightarrow>
               files = [] \<or> (\<forall>f \<in> set files. filename f = []) \<or> converted_files s = []) \<and>
            (\<not> request_error r \<longrightarrow>
               r = Success sid (converted_files s) (failed_files s)
                     (length (converted_files s)) (length (failed_files s)))"
  using assms
  by (auto simp: convert_files_def request_error_def Let_def getlist_nonempty)

text \<open>C5 at a batch with one success, one skipped entry and one failure.\<close>

theorem convert_request_error_iff_witness:
  "\<not> request_error (fst (convert_files demo_lib ''s1'' form_mixed disk0)) \<and>
   fst (convert_files demo_lib ''s1'' form_mixed disk0) =
     Success ''s1'' [Converted ''a.heic'' ''a.jpg'' 3]
       [Failed ''b.txt'' ''Not a HEIC/HEIF file''] 1 1"
proof -
  have h: "makedirs disk0 (TEMP_DIR @ [''s1'']) = Inr (disk0 @ [(TEMP_DIR @ [''s1''], Dir)])"
    by (simp add: web_eval)
  have c: "converted_files (process_files demo_lib (TEMP_DIR @ [''s1'']) (getlist form_mixed ''files'')
             (init_state (disk0 @ [(TEMP_DIR @ [''s1''], Dir)]))) = [Converted ''a.heic'' ''a.jpg'' 3]"
    by (simp add: web_eval2 form_mixed_def)
  have f: "failed_files (process_files demo_lib (TEMP_DIR @ [''s1'']) (getlist form_mixed ''files'')
             (init_state (disk0 @ [(TEMP_DIR @ [''s1''], Dir)]))) = [Failed ''b.txt'' ''Not a HEIC/HEIF file'']"
    by (simp add: web_eval2 form_mixed_def)
  have g: "getlist form_mixed ''files'' \<noteq> [] \<and> \<not> (\<forall>f \<in> set (getlist form_mixed ''files''). filename f = [])"
    by (simp add: getlist_def form_mixed_def)
  from convert_request_error_iff [OF h, where lib = demo_lib and form = form_mixed] c f g
  show ?thesis by (simp add: Let_def)
qed

text \<open>
  C10: in a request with both named and empty-named entries, no entry of the converted or
  of the failed list has an empty name, the two counts add up to the number of named
  entries, and so to less than the number of uploaded entries.
\<close>

theorem empty_names_skipped:
  assumes "makedirs d (TEMP_DIR @ [sid]) = Inr d1"
    and "\<exists>f \<in> set (getlist form ''files''). filename f = []"
    and "\<exists>f \<in> set (getlist form ''files''). filename f \<noteq> []"
  shows "case fst (convert_files lib sid form d) of
           Success i conv fl tc tf \<Rightarrow>
             (\<forall>c \<in> set conv. original c \<noteq> []) \<and> (\<forall>x \<in> set fl. name x \<noteq> []) \<and>
             tc + tf = length (filter (\<lambda>f. filename f \<noteq> []) (getlist form ''files'')) \<and>
             tc + tf < length (getlist form ''files'')
         | Error400 m fo \<Rightarrow>
             (\<exists>fl. fo = Some fl \<and> (\<forall>x \<in> set fl. name x \<noteq> []) \<and>
                   length fl < length (getlist form ''files''))
         | _ \<Rightarrow> False"
proof -
  let ?files = "getlist form ''files''"
  let ?s = "process_files lib (TEMP_DIR @ [sid]) ?files (init_state d1)"
  have cnt: "length (converted_files ?s) + length (failed_files ?s) =
             length (filter (\<lambda>f. filename f \<noteq> []) ?files)"
    using process_files_counts [of lib "TEMP_DIR @ [sid]" ?files "init_state d1"]
    by (simp add: init_state_def)
  have nms: "(\<forall>c \<in> set (converted_files ?s). original c \<noteq> []) \<and>
             (\<forall>x \<in> set (failed_files ?s). name x \<noteq> [])"
    by (rule process_files_names) (simp_all add: init_state_def)
  from assms(2) have lt: "length (filter (\<lambda>f. filename f \<noteq> []) ?files) < length ?files"
    by (auto intro: length_filter_drop)
  from assms(3) have ne: "?files \<noteq> []" and field: "''files'' \<in> fst ` set form"
    by (auto simp: getlist_nonempty [symmetric])
  show ?thesis
  proof (cases "converted_files ?s = []")
    case True
    with cnt lt nms assms ne field show ?thesis
      by (auto simp: convert_files_def Let_def)
  next
    case False
    with cnt lt nms assms ne field show ?thesis
      by (auto simp: convert_files_def Let_def)
  qed
qed

text \<open>C10 at a batch of three entries, one of them with an empty name.\<close>

theorem empty_names_skipped_witness:
  "fst (convert_files demo_lib ''s1'' form_mixed disk0) =
     Success ''s1'' [Converted ''a.heic'' ''a.jpg'' 3]
       [Failed ''b.txt'' ''Not a HEIC/HEIF file''] 1 1 \<and>
   (1::nat) + 1 < length (getlist form_mixed ''files'')"
proof -
  have h: "makedirs disk0 (TEMP_DIR @ [''s1'']) = Inr (disk0 @ [(TEMP_DIR @ [''s1''], Dir)])"
    by (simp add: web_eval)
  have e: "\<exists>f \<in> set (getlist form_mixed ''files''). filename f = []"
    by (simp add: getlist_def form_mixed_def)
  have n: "\<exists>f \<in> set (getlist form_mixed ''files''). filename f \<noteq> []"
    by (simp add: getlist_def form_mixed_def)
  have r: "fst (convert_files demo_lib ''s1'' form_mixed disk0) =
     Success ''s1'' [Converted ''a.heic'' ''a.jpg'' 3]
       [Failed ''b.txt'' ''Not a HEIC/HEIF file''] 1 1"
    by (simp add: web_eval2 form_mixed_def)
  from empty_names_skipped [OF h e n, where lib = demo_lib] r show ?thesis by simp
qed

text \<open>
  C3 fails on the code: for the batch \<open>a.heic\<close>, \<open>a.heic\<close>, \<open>a_1.heic\<close> the second and the third
  file both get the output name \<open>a_1.jpg\<close>; all three are reported as converted and the
  session directory holds two files, the second conversion overwritten by the third.
\<close>

theorem colliding_output_names:
  "convert_files demo_lib ''s1'' form_collide disk0 =
     (Success ''s1''
        [Converted ''a.heic'' ''a.jpg'' 3, Converted ''a.heic'' ''a_1.jpg'' 3,
         Converted ''a_1.heic'' ''a_1.jpg'' 3] [] 3 0,
      disk0 @
        [(TEMP_DIR @ [''s1''], Dir),
         (TEMP_DIR @ [''s1'', ''a.jpg''], File [255, 216, 1]),
         (TEMP_DIR @ [''s1'', ''a_1.jpg''], File [255, 216, 3])])"
  by (simp add: web_eval2 form_collide_def)

text \<open>C3: the reported output names of that batch are not pairwise distinct.\<close>

theorem colliding_output_names_witness:
  "\<not> distinct (map converted_name (converted (fst (convert_files demo_lib ''s1'' form_collide disk0)))) \<and>
   listdir (snd (convert_files demo_lib ''s1'' form_collide disk0)) (TEMP_DIR @ [''s1'']) =
     [''a.jpg'', ''a_1.jpg'']"
  using colliding_output_names by (simp add: listdir_def disk0_def TEMP_DIR_def parent_def)

text \<open>
  An uploaded name with a path separator: into a missing subdirectory the save fails and
  the file is recorded as failed; through \<open>..\<close> the file is written beside the session
  directory and recorded as converted.
\<close>

lemma upload_into_missing_subdirectory:
  "convert_files demo_lib ''s1'' form_subdir disk0 =
     (Error400 ''No files were converted'' (Some [Failed ''sub/a.heic'' ''FileNotFoundError'']),
      disk0 @ [(TEMP_DIR @ [''s1''], Dir)])"
  by (simp add: web_eval2 form_subdir_def)

lemma upload_through_parent:
  "convert_files demo_lib ''s1'' form_parent disk0 =
     (Success ''s1'' [Converted ''../a.heic'' ''../a.jpg'' 3] [] 1 0,
      disk0 @ [(TEMP_DIR @ [''s1''], Dir), (TEMP_DIR @ [''a.jpg''], File [255, 216, 1])])"
  by (simp add: web_eval2 form_parent_def)

text \<open>The batch with \<open>a.heic\<close> twice yields \<open>a.jpg\<close> and then \<open>a_1.jpg\<close>.\<close>

lemma a_heic_twice:
  "fst (convert_files demo_lib ''s1'' form_twice disk0) =
     Success ''s1'' [Converted ''a.heic'' ''a.jpg'' 3, Converted ''a.heic'' ''a_1.jpg'' 3] [] 2 0"
  by (simp add: web_eval2 form_twice_def)



section \<open>The command line tool: what a run leaves unchanged\<close>

lemma fsys_emit [simp]: "fsys (emit l s) = fsys s"
  by (simp add: emit_def)

lemma mkdirs_mono:
  "mkdirs d pre cs = Inr d' \<Longrightarrow> lookup d x = Some n \<Longrightarrow> lookup d' x = Some n"
proof (induction cs arbitrary: d pre)
  case Nil
  then show ?case by simp
next
  case (Cons c cs)
  show ?case
  proof (cases "lookup d (pre @ [c])")
    case None
    with Cons.prems have m: "mkdirs (d @ [(pre @ [c], Dir)]) (pre @ [c]) cs = Inr d'" by simp
    from None Cons.prems(2) have "lookup (d @ [(pre @ [c], Dir)]) x = Some n"
      by (auto simp: lookup_append)
    with m show ?thesis by (rule Cons.IH)
  next
    case (Some m)
    with Cons.prems have "mkdirs d (pre @ [c]) cs = Inr d'"
      by (cases m) simp_all
    then show ?thesis using Cons.prems(2) by (rule Cons.IH)
  qed
qed

lemma mkdirs_changes:
  "mkdirs d pre cs = Inr d' \<Longrightarrow> lookup d' x \<noteq> lookup d x \<Longrightarrow> \<exists>k. x = pre @ take k cs"
proof (induction cs arbitrary: d pre)
  case Nil
  then show ?case by simp
next
  case (Cons c cs)
  show ?case
  proof (cases "lookup d (pre @ [c])")
    case None
    with Cons.prems have m: "mkdirs (d @ [(pre @ [c], Dir)]) (pre @ [c]) cs = Inr d'" by simp
    show ?thesis
    proof (cases "x = pre @ [c]")
      case True
      then have "x = pre @ take 1 (c # cs)" by simp
      then show ?thesis by blast
    next
      case False
      with None have "lookup (d @ [(pre @ [c], Dir)]) x = lookup d x"
        by (simp add: lookup_append)
      with Cons.prems(2) have "lookup d' x \<noteq> lookup (d @ [(pre @ [c], Dir)]) x" by simp
      with m have "\<exists>k. x = (pre @ [c]) @ take k cs" by (rule Cons.IH)
      then obtain k where "x = pre @ take (Suc k) (c # cs)" by auto
      then show ?thesis by blast
    qed
  next
    case (Some m)
    with Cons.prems have "mkdirs d (pre @ [c]) cs = Inr d'"
      by (cases m) simp_all
    then have "\<exists>k. x = (pre @ [c]) @ take k cs" using Cons.prems(2) by (rule Cons.IH)
    then obtain k where "x = pre @ take (Suc k) (c # cs)" by auto
    then show ?thesis by blast
  qed
qed

lemma wf_parent_dir:
  assumes "wf_fs d" "path_exists d p" "p \<noteq> []"
  shows "is_dir d (parent p)"
proof -
  from assms(2,3) obtain n where "map_of d p = Some n"
    by (auto simp: path_exists_def lookup_def)
  then have "(p, n) \<in> set d" by (rule map_of_SomeD)
  with assms(1) show ?thesis by (auto simp: wf_fs_def)
qed

lemma wf_prefix_dir:
  "wf_fs d \<Longrightarrow> path_exists d (p @ q) \<Longrightarrow> q \<noteq> [] \<Longrightarrow> is_dir d p"
proof (induction q rule: rev_induct)
  case Nil
  then show ?case by simp
next
  case (snoc c q)
  from wf_parent_dir [OF snoc.prems(1,2)] have par: "is_dir d (p @ q)"
    by (simp add: parent_def butlast_append)
  show ?case
  proof (cases "q = []")
    case True
    with par show ?thesis by simp
  next
    case False
    from par have "path_exists d (p @ q)" by (simp add: is_dir_def path_exists_def)
    with snoc.IH snoc.prems(1) False show ?thesis by simp
  qed
qed

lemma mkdirs_noop:
  "wf_fs d \<Longrightarrow> is_dir d (pre @ cs) \<Longrightarrow> mkdirs d pre cs = Inr d"
proof (induction cs arbitrary: pre)
  case Nil
  then show ?case by simp
next
  case (Cons c cs)
  have "is_dir d (pre @ [c])"
  proof (cases "cs = []")
    case True
    with Cons.prems(2) show ?thesis by simp
  next
    case False
    from Cons.prems(2) have pe: "path_exists d ((pre @ [c]) @ cs)"
      by (simp add: is_dir_def path_exists_def)
    from wf_prefix_dir [OF Cons.prems(1) pe False] show ?thesis .
  qed
  moreover from Cons.prems have "mkdirs d (pre @ [c]) cs = Inr d"
    by (intro Cons.IH) simp_all
  ultimately show ?case by (simp add: is_dir_def)
qed

lemma makedirs_noop: "wf_fs d \<Longrightarrow> is_dir d p \<Longrightarrow> makedirs d p = Inr d"
  using mkdirs_noop [of d "[]" p] by (simp add: makedirs_def)

lemma makedirs_mono: "makedirs d p = Inr d' \<Longrightarrow> lookup d x = Some n \<Longrightarrow> lookup d' x = Some n"
  unfolding makedirs_def by (rule mkdirs_mono)

lemma makedirs_changes:
  "makedirs d p = Inr d' \<Longrightarrow> lookup d' x \<noteq> lookup d x \<Longrightarrow> \<exists>k. x = take k p"
  unfolding makedirs_def by (drule mkdirs_changes) auto

lemma open_convert_save_other:
  "open_convert_save lib d p t q = Inr d' \<Longrightarrow> x \<noteq> t \<Longrightarrow> lookup d' x = lookup d x"
  by (auto simp: open_convert_save_def split: sum.splits dest: save_other)

lemma resolve_mono:
  "resolve_output_dir d p odo = Inr r \<Longrightarrow> lookup d x = Some n \<Longrightarrow> lookup (snd r) x = Some n"
  by (auto simp: resolve_output_dir_def split: option.splits sum.splits dest: makedirs_mono)

lemma resolve_changes:
  "resolve_output_dir d p odo = Inr r \<Longrightarrow> lookup (snd r) x \<noteq> lookup d x \<Longrightarrow> \<exists>k. x = take k (fst r)"
  by (auto simp: resolve_output_dir_def split: option.splits sum.splits dest: makedirs_changes)

lemma resolve_Some:
  "resolve_output_dir d p (Some od) = Inr r \<Longrightarrow> fst r = od"
  by (auto simp: resolve_output_dir_def split: sum.splits)

lemma convert_into_mono:
  assumes "convert_into lib p od q s = (r, s')" and "lookup (fsys s) x = Some n"
  shows "lookup (fsys s') x = Some n"
proof (cases "path_exists (fsys s) (od @ [jpg_name p])")
  case True
  with assms show ?thesis by (auto simp: convert_into_def)
next
  case False
  with assms(2) have ne: "x \<noteq> od @ [jpg_name p]" by (auto simp: path_exists_def)
  show ?thesis
  proof (cases "open_convert_save lib (fsys s) p (od @ [jpg_name p]) q")
    case (Inl e)
    with assms False show ?thesis by (auto simp: convert_into_def)
  next
    case (Inr d2)
    from open_convert_save_other [OF Inr ne] have "lookup d2 x = lookup (fsys s) x" .
    with assms False Inr show ?thesis by (auto simp: convert_into_def)
  qed
qed

lemma convert_into_changes:
  assumes "convert_into lib p od q s = (r, s')" and "lookup (fsys s') x \<noteq> lookup (fsys s) x"
  shows "x = od @ [jpg_name p]"
proof (cases "path_exists (fsys s) (od @ [jpg_name p])")
  case True
  with assms show ?thesis by (auto simp: convert_into_def)
next
  case False
  show ?thesis
  proof (cases "open_convert_save lib (fsys s) p (od @ [jpg_name p]) q")
    case (Inl e)
    with assms False show ?thesis by (auto simp: convert_into_def)
  next
    case (Inr d2)
    with assms False have "fsys s' = d2" by (auto simp: convert_into_def)
    with assms(2) open_convert_save_other [OF Inr, of x] show ?thesis by auto
  qed
qed

lemma convert_mono:
  assumes "convert_heic_to_jpg lib p odo q s = (r, s')" and "lookup (fsys s) x = Some n"
  shows "lookup (fsys s') x = Some n"
proof (cases "path_exists (fsys s) p")
  case False
  with assms show ?thesis by (auto simp: convert_heic_to_jpg_def)
next
  case True
  show ?thesis
  proof (cases "resolve_output_dir (fsys s) p odo")
    case (Inl e)
    with assms True show ?thesis by (auto simp: convert_heic_to_jpg_def)
  next
    case (Inr pr)
    with assms True have c: "convert_into lib p (fst pr) q (s\<lparr>fsys := snd pr\<rparr>) = (r, s')"
      by (simp add: convert_heic_to_jpg_def)
    from resolve_mono [OF Inr assms(2)] have "lookup (fsys (s\<lparr>fsys := snd pr\<rparr>)) x = Some n"
      by simp
    with c show ?thesis by (rule convert_into_mono)
  qed
qed

lemma convert_changes:
  assumes "convert_heic_to_jpg lib p (Some od) q s = (r, s')"
    and "lookup (fsys s') x \<noteq> lookup (fsys s) x"
  shows "x = od @ [jpg_name p] \<or> (\<exists>k. x = take k od)"
proof (cases "path_exists (fsys s) p")
  case False
  with assms show ?thesis by (auto simp: convert_heic_to_jpg_def)
next
  case True
  show ?thesis
  proof (cases "resolve_output_dir (fsys s) p (Some od)")
    case (Inl e)
    with assms True show ?thesis by (auto simp: convert_heic_to_jpg_def)
  next
    case (Inr pr)
    with assms True have c: "convert_into lib p (fst pr) q (s\<lparr>fsys := snd pr\<rparr>) = (r, s')"
      by (simp add: convert_heic_to_jpg_def)
    from resolve_Some [OF Inr] have od: "fst pr = od" .
    show ?thesis
    proof (cases "lookup (fsys s') x = lookup (snd pr) x")
      case True
      with assms(2) have "lookup (snd pr) x \<noteq> lookup (fsys s) x" by simp
      with resolve_changes [OF Inr] od show ?thesis by auto
    next
      case False
      then have "lookup (fsys s') x \<noteq> lookup (fsys (s\<lparr>fsys := snd pr\<rparr>)) x" by simp
      with c have "x = fst pr @ [jpg_name p]" by (rule convert_into_changes)
      with od show ?thesis by simp
    qed
  qed
qed

lemma convert_result:
  assumes "convert_heic_to_jpg lib p (Some od) q s = (Returned (Some t), s')"
  shows "t = od @ [jpg_name p] \<and> path_exists (fsys s') t"
proof (cases "path_exists (fsys s) p")
  case False
  with assms show ?thesis by (auto simp: convert_heic_to_jpg_def)
next
  case True
  show ?thesis
  proof (cases "resolve_output_dir (fsys s) p (Some od)")
    case (Inl e)
    with assms True show ?thesis by (auto simp: convert_heic_to_jpg_def)
  next
    case (Inr pr)
    with assms True have c: "convert_into lib p (fst pr) q (s\<lparr>fsys := snd pr\<rparr>) = (Returned (Some t), s')"
      by (simp add: convert_heic_to_jpg_def)
    from resolve_Some [OF Inr] have od: "fst pr = od" .
    show ?thesis
    proof (cases "path_exists (snd pr) (od @ [jpg_name p])")
      case True
      with c od show ?thesis by (auto simp: convert_into_def)
    next
      case False
      show ?thesis
      proof (cases "open_convert_save lib (snd pr) p (od @ [jpg_name p]) q")
        case (Inl e)
        with c od False show ?thesis by (auto simp: convert_into_def)
      next
        case (Inr d2)
        then obtain b where "lookup d2 (od @ [jpg_name p]) = Some (File b)"
          by (auto simp: open_convert_save_def split: sum.splits dest: save_target)
        with c od False Inr show ?thesis by (auto simp: convert_into_def path_exists_def)
      qed
    qed
  qed
qed

lemma folder_loop_mono:
  "folder_loop lib sub q hs cf s = (r, s') \<Longrightarrow> lookup (fsys s) x = Some n \<Longrightarrow>
     lookup (fsys s') x = Some n"
proof (induction hs arbitrary: cf s)
  case Nil
  then show ?case by simp
next
  case (Cons h hs)
  let ?od = "if sub then parent h @ [''jpg files''] else parent h"
  obtain o1 s1 where c: "convert_heic_to_jpg lib h (Some ?od) q s = (o1, s1)"
    by (cases "convert_heic_to_jpg lib h (Some ?od) q s")
  from convert_mono [OF c Cons.prems(2)] have l1: "lookup (fsys s1) x = Some n" .
  show ?case
  proof (cases o1)
    case (Returned r1)
    with Cons.prems(1) c have
      "folder_loop lib sub q hs (if r1 \<noteq> None then (fst cf + 1, snd cf) else (fst cf, snd cf + 1)) s1 = (r, s')"
      by (simp add: Let_def)
    then show ?thesis using l1 by (rule Cons.IH)
  next
    case (Raised e)
    with Cons.prems(1) c l1 show ?thesis by (auto simp: Let_def)
  next
    case Interactive
    with Cons.prems(1) c l1 show ?thesis by (auto simp: Let_def)
  qed
qed

lemma convert_folder_mono:
  assumes "convert_folder lib cs p rec sub q s = (r, s')" and "lookup (fsys s) x = Some n"
  shows "lookup (fsys s') x = Some n"
proof (cases "\<not> path_exists (fsys s) p \<or> find_heic cs (fsys s) p rec = []")
  case True
  with assms show ?thesis by (auto simp: convert_folder_def Let_def split: if_splits)
next
  case False
  let ?s0 = "emit (''Found '' @ str_nat (length (find_heic cs (fsys s) p rec)) @ '' HEIC file(s)'')
               (emit (CHR 0x0A # ''Processing: '' @ str_path p) s)"
  obtain o1 s1 where f: "folder_loop lib sub q (sorted_paths cs (find_heic cs (fsys s) p rec)) (0, 0) ?s0 = (o1, s1)"
    by (cases "folder_loop lib sub q (sorted_paths cs (find_heic cs (fsys s) p rec)) (0, 0) ?s0")
  from assms(2) have "lookup (fsys ?s0) x = Some n" by simp
  with f have l1: "lookup (fsys s1) x = Some n" by (rule folder_loop_mono)
  from assms(1) False f have "fsys s' = fsys s1"
    by (cases o1) (auto simp: convert_folder_def Let_def split: prod.splits)
  with l1 show ?thesis by simp
qed

lemma main_loop_mono:
  "main_loop lib cs a ps tot s = (r, s') \<Longrightarrow> lookup (fsys s) x = Some n \<Longrightarrow>
     lookup (fsys s') x = Some n"
proof (induction ps arbitrary: tot s)
  case Nil
  then show ?case by simp
next
  case (Cons p ps)
  show ?case
  proof (cases "is_file (fsys s) p")
    case True
    obtain o1 s1 where c: "convert_heic_to_jpg lib p (output_dir a) (quality a) s = (o1, s1)"
      by (cases "convert_heic_to_jpg lib p (output_dir a) (quality a) s")
    from convert_mono [OF c Cons.prems(2)] have l1: "lookup (fsys s1) x = Some n" .
    show ?thesis
    proof (cases o1)
      case (Returned r1)
      with Cons.prems(1) c True have
        "main_loop lib cs a ps (if r1 \<noteq> None then (fst tot + 1, snd tot) else (fst tot, snd tot + 1)) s1 = (r, s')"
        by simp
      then show ?thesis using l1 by (rule Cons.IH)
    next
      case (Raised e)
      with Cons.prems(1) c l1 True show ?thesis by auto
    next
      case Interactive
      with Cons.prems(1) c l1 True show ?thesis by auto
    qed
  next
    case nf: False
    show ?thesis
    proof (cases "is_dir (fsys s) p")
      case True
      obtain o1 s1 where c: "convert_folder lib cs p (recursive a) (\<not> no_subfolder a) (quality a) s = (o1, s1)"
        by (cases "convert_folder lib cs p (recursive a) (\<not> no_subfolder a) (quality a) s")
      from convert_folder_mono [OF c Cons.prems(2)] have l1: "lookup (fsys s1) x = Some n" .
      show ?thesis
      proof (cases o1)
        case (Returned cf)
        with Cons.prems(1) c True nf have
          "main_loop lib cs a ps (fst tot + fst cf, snd tot + snd cf) s1 = (r, s')"
          by (simp split: prod.splits)
        then show ?thesis using l1 by (rule Cons.IH)
      next
        case (Raised e)
        with Cons.prems(1) c l1 True nf show ?thesis by auto
      next
        case Interactive
        with Cons.prems(1) c l1 True nf show ?thesis by auto
      qed
    next
      case False
      with nf Cons.prems(1) have
        "main_loop lib cs a ps tot (emit (''Warning: Path not found - '' @ str_path p) s) = (r, s')"
        by simp
      moreover from Cons.prems(2) have
        "lookup (fsys (emit (''Warning: Path not found - '' @ str_path p) s)) x = Some n" by simp
      ultimately show ?thesis by (rule Cons.IH)
    qed
  qed
qed

lemma main_mono:
  assumes "main lib cs a s = (r, s')" and "lookup (fsys s) x = Some n"
  shows "lookup (fsys s') x = Some n"
proof (cases "paths a = []")
  case True
  with assms show ?thesis by (simp add: main_def)
next
  case False
  obtain o1 s1 where m: "main_loop lib cs a (paths a) (0, 0) s = (o1, s1)"
    by (cases "main_loop lib cs a (paths a) (0, 0) s")
  from main_loop_mono [OF m assms(2)] have l1: "lookup (fsys s1) x = Some n" .
  from assms(1) False m have "fsys s' = fsys s1"
    by (cases o1) (auto simp: main_def split: prod.splits)
  with l1 show ?thesis by simp
qed

section \<open>The command line tool: skipping, output location, extensions\<close>

lemma resolve_noop:
  assumes "wf_fs d" and "path_exists d ((case odo of Some od \<Rightarrow> od | None \<Rightarrow> parent p) @ [j])"
  shows "resolve_output_dir d p odo = Inr (case odo of Some od \<Rightarrow> od | None \<Rightarrow> parent p, d)"
proof (cases odo)
  case None
  then show ?thesis by (simp add: resolve_output_dir_def)
next
  case (Some od)
  with assms(2) have "path_exists d (od @ [j])" by simp
  with assms(1) have "is_dir d od" by (rule wf_prefix_dir) simp
  with assms(1) have "makedirs d od = Inr d" by (rule makedirs_noop)
  with Some show ?thesis by (simp add: resolve_output_dir_def)
qed

lemma convert_skips:
  assumes "wf_fs (fsys s)" and "path_exists (fsys s) p"
    and "t = (case odo of Some od \<Rightarrow> od | None \<Rightarrow> parent p) @ [jpg_name p]"
    and "path_exists (fsys s) t"
  shows "convert_heic_to_jpg lib p odo q s =
           (Returned (Some t), emit (''  Skipped (exists): '' @ jpg_name p) s)"
proof -
  from assms(1,3,4) have "resolve_output_dir (fsys s) p odo =
      Inr (case odo of Some od \<Rightarrow> od | None \<Rightarrow> parent p, fsys s)"
    by (intro resolve_noop) simp_all
  with assms(2,3,4) show ?thesis
    by (simp add: convert_heic_to_jpg_def convert_into_def)
qed

text \<open>
  C6: when the target \<open>.jpg\<close> of an input already exists as a file, \<open>convert_heic_to_jpg\<close>
  calls no library operation and leaves the file system as it is, prints the "Skipped" line
  and returns the target path; the loops of \<open>main\<close> and of \<open>convert_folder\<close> count it as
  converted, and after a whole run of \<open>main\<close> the target still has the same bytes.
\<close>

theorem existing_target_skipped:
  assumes "wf_fs (fsys s)" and "path_exists (fsys s) p"
    and "t = (case odo of Some od \<Rightarrow> od | None \<Rightarrow> parent p) @ [jpg_name p]"
    and "lookup (fsys s) t = Some (File b)"
  shows "convert_heic_to_jpg lib p odo q s =
           (Returned (Some t), emit (''  Skipped (exists): '' @ jpg_name p) s) \<and>
         (is_file (fsys s) p \<and> output_dir a = odo \<longrightarrow>
            main_loop lib cs a [p] (c, f) s =
              (Returned (c + 1, f), emit (''  Skipped (exists): '' @ jpg_name p) s)) \<and>
         (odo = Some (if sub then parent p @ [''jpg files''] else parent p) \<longrightarrow>
            folder_loop lib sub q [p] (c, f) s =
              (Returned (c + 1, f), emit (''  Skipped (exists): '' @ jpg_name p) s)) \<and>
         (\<forall>a' r s'. main lib cs a' s = (r, s') \<longrightarrow> lookup (fsys s') t = Some (File b))"
proof -
  from assms(4) have ex: "path_exists (fsys s) t" by (simp add: path_exists_def)
  have skip: "convert_heic_to_jpg lib p odo q' s =
           (Returned (Some t), emit (''  Skipped (exists): '' @ jpg_name p) s)" for q'
    using assms(1,2,3) ex by (rule convert_skips)
  have "is_file (fsys s) p \<and> output_dir a = odo \<longrightarrow>
            main_loop lib cs a [p] (c, f) s =
              (Returned (c + 1, f), emit (''  Skipped (exists): '' @ jpg_name p) s)"
    using skip [of "quality a"] by auto
  moreover have "odo = Some (if sub then parent p @ [''jpg files''] else parent p) \<longrightarrow>
            folder_loop lib sub q [p] (c, f) s =
              (Returned (c + 1, f), emit (''  Skipped (exists): '' @ jpg_name p) s)"
    using skip [of q] by (auto simp: Let_def)
  moreover have "\<forall>a' r s'. main lib cs a' s = (r, s') \<longrightarrow> lookup (fsys s') t = Some (File b)"
    using assms(4) by (auto dest: main_mono)
  ultimately show ?thesis using skip [of q] by simp
qed

lemmas cli_eval = main_def convert_heic_to_jpg_def convert_into_def resolve_output_dir_def
  jpg_name_def stem_def name_of_def parent_def path_exists_def is_file_def is_dir_def lookup_def
  emit_def str_path_def open_convert_save_def open_path_def to_rgb_def save_def write_file_def
  demo_lib_def args0_def start_def makedirs_def str_nat.simps digit_def

text \<open>C6 at a run on \<open>pics/e.heic\<close> where \<open>pics/e.jpg\<close> exists.\<close>

theorem existing_target_skipped_witness:
  "main demo_lib True (args0\<lparr>paths := [[''pics'', ''e.heic'']]\<rparr>) (start disk_empty_done) =
     (Returned (1, 0),
      \<lparr>fsys = disk_empty_done,
       printed = [''  Skipped (exists): e.jpg'', CHR 0x0A # replicate 50 CHR ''='',
                  ''TOTAL: 1 converted, 0 failed'', replicate 50 CHR ''='']\<rparr>) \<and>
   lookup (fsys (snd (main demo_lib True (args0\<lparr>paths := [[''pics'', ''e.heic'']]\<rparr>)
                      (start disk_empty_done)))) [''pics'', ''e.jpg''] = Some (File [1, 2])"
proof -
  have w: "wf_fs (fsys (start disk_empty_done))"
    by (simp add: wf_fs_def start_def disk_empty_done_def is_dir_def lookup_def parent_def)
  have e: "path_exists (fsys (start disk_empty_done)) [''pics'', ''e.heic'']"
    by (simp add: start_def disk_empty_done_def path_exists_def lookup_def)
  have t: "[''pics'', ''e.jpg''] =
      (case None of Some od \<Rightarrow> od | None \<Rightarrow> parent [''pics'', ''e.heic'']) @
      [jpg_name [''pics'', ''e.heic'']]"
    by (simp add: parent_def jpg_name_def stem_def name_of_def)
  have l: "lookup (fsys (start disk_empty_done)) [''pics'', ''e.jpg''] = Some (File [1, 2])"
    by (simp add: start_def disk_empty_done_def lookup_def)
  have f: "is_file (fsys (start disk_empty_done)) [''pics'', ''e.heic'']"
    by (simp add: start_def disk_empty_done_def is_file_def lookup_def)
  have j: "jpg_name [''pics'', ''e.heic''] = ''e.jpg''"
    by (simp add: jpg_name_def stem_def name_of_def)
  from existing_target_skipped [OF w e t l, where lib = demo_lib and cs = True
      and a = "args0\<lparr>paths := [[''pics'', ''e.heic'']]\<rparr>" and c = 0 and f = 0]
  have m: "main_loop demo_lib True (args0\<lparr>paths := [[''pics'', ''e.heic'']]\<rparr>)
             [[''pics'', ''e.heic'']] (0, 0) (start disk_empty_done) =
           (Returned (1, 0), emit ''  Skipped (exists): e.jpg'' (start disk_empty_done))"
    using f j by (simp add: args0_def)
  then show ?thesis
    by (simp add: main_def args0_def emit_def start_def str_nat.simps digit_def
        disk_empty_done_def lookup_def)
qed

lemma main_loop_file_changes:
  "output_dir a = Some od \<Longrightarrow> \<forall>p \<in> set ps. is_file (fsys s) p \<Longrightarrow>
   main_loop lib cs a ps tot s = (r, s') \<Longrightarrow> lookup (fsys s') x \<noteq> lookup (fsys s) x \<Longrightarrow>
   parent x = od \<or> (\<exists>k. x = take k od)"
proof (induction ps arbitrary: tot s)
  case Nil
  then show ?case by simp
next
  case (Cons p ps)
  from Cons.prems(2) have pf: "is_file (fsys s) p" by simp
  obtain o1 s1 where c: "convert_heic_to_jpg lib p (Some od) (quality a) s = (o1, s1)"
    by (cases "convert_heic_to_jpg lib p (Some od) (quality a) s")
  have keep: "\<forall>p' \<in> set ps. is_file (fsys s1) p'"
  proof
    fix p' assume "p' \<in> set ps"
    with Cons.prems(2) have "is_file (fsys s) p'" by simp
    then obtain b where "lookup (fsys s) p' = Some (File b)"
      by (auto simp: is_file_def split: option.splits node.splits)
    with c have "lookup (fsys s1) p' = Some (File b)" by (rule convert_mono)
    then show "is_file (fsys s1) p'" by (simp add: is_file_def)
  qed
  have step: "lookup (fsys s1) x \<noteq> lookup (fsys s) x \<Longrightarrow> parent x = od \<or> (\<exists>k. x = take k od)"
    using convert_changes [OF c, of x] by (auto simp: parent_def)
  show ?case
  proof (cases o1)
    case (Returned r1)
    with Cons.prems(1,3) c pf have rest:
      "main_loop lib cs a ps (if r1 \<noteq> None then (fst tot + 1, snd tot) else (fst tot, snd tot + 1)) s1 = (r, s')"
      by simp
    show ?thesis
    proof (cases "lookup (fsys s') x = lookup (fsys s1) x")
      case True
      with Cons.prems(4) step show ?thesis by simp
    next
      case False
      from Cons.IH [OF Cons.prems(1) keep rest False] show ?thesis .
    qed
  next
    case (Raised e)
    with Cons.prems(1,3) c pf have "s' = s1" by simp
    with Cons.prems(4) step show ?thesis by simp
  next
    case Interactive
    with Cons.prems(1,3) c pf have "s' = s1" by simp
    with Cons.prems(4) step show ?thesis by simp
  qed
qed

lemma is_dir_not_file: "is_dir d p \<Longrightarrow> \<not> is_file d p"
  by (simp add: is_dir_def is_file_def)

text \<open>
  With an explicit output directory, a run over file arguments creates or changes nothing
  but the output directory, its ancestors and entries directly in it, and every file
  argument that is reported converted has its target in that directory; for a directory
  argument the run is the same as without the option.
\<close>

lemma output_dir_only_for_file_arguments:
  assumes "output_dir a = Some od"
  shows "((\<forall>p \<in> set ps. is_file (fsys s) p) \<and> main_loop lib cs a ps tot s = (r, s') \<longrightarrow>
            (\<forall>x. lookup (fsys s') x \<noteq> lookup (fsys s) x \<longrightarrow>
                 parent x = od \<or> (\<exists>k. x = take k od))) \<and>
         (is_file (fsys s) p \<and>
          convert_heic_to_jpg lib p (output_dir a) (quality a) s = (Returned (Some t), s1) \<longrightarrow>
            t = od @ [jpg_name p] \<and> path_exists (fsys s1) t) \<and>
         (is_dir (fsys s) p \<longrightarrow>
            main_loop lib cs a [p] tot s =
            main_loop lib cs (a\<lparr>output_dir := None\<rparr>) [p] tot s)"
proof -
  have "(\<forall>p \<in> set ps. is_file (fsys s) p) \<and> main_loop lib cs a ps tot s = (r, s') \<longrightarrow>
            (\<forall>x. lookup (fsys s') x \<noteq> lookup (fsys s) x \<longrightarrow>
                 parent x = od \<or> (\<exists>k. x = take k od))"
    using main_loop_file_changes [OF assms] by blast
  moreover have "is_file (fsys s) p \<and>
          convert_heic_to_jpg lib p (output_dir a) (quality a) s = (Returned (Some t), s1) \<longrightarrow>
            t = od @ [jpg_name p] \<and> path_exists (fsys s1) t"
    using assms convert_result [of lib p od "quality a" s t s1] by simp
  moreover have "is_dir (fsys s) p \<longrightarrow>
            main_loop lib cs a [p] tot s =
            main_loop lib cs (a\<lparr>output_dir := None\<rparr>) [p] tot s"
    by (auto simp: is_dir_not_file split: prod.splits outcome.splits)
  ultimately show ?thesis by blast
qed

lemmas folder_eval = convert_folder_def find_heic_def glob_def rglob_def matches_def endswith_def
  lower_def lower_char_def sorted_paths_def

text \<open>
  C2 fails on the code: with \<open>-o out\<close> and the directory argument \<open>pics\<close>, the file
  \<open>pics/x.heic\<close> is converted into \<open>pics/jpg files/x.jpg\<close> and \<open>out\<close> stays empty.
\<close>

theorem output_dir_ignored_for_folder:
  "main demo_lib True (args0\<lparr>paths := [[''pics'']], output_dir := Some [''out'']\<rparr>)
     (start disk_pics) =
   (Returned (1, 0),
    \<lparr>fsys = disk_pics @ [([''pics'', ''jpg files''], Dir),
                         ([''pics'', ''jpg files'', ''x.jpg''], File [255, 216, 7])],
     printed = [CHR 0x0A # ''Processing: /pics'', ''Found 1 HEIC file(s)'',
                ''  Converted: x.heic -> x.jpg'', ''Completed: 1 converted, 0 failed'',
                CHR 0x0A # replicate 50 CHR ''='', ''TOTAL: 1 converted, 0 failed'',
                replicate 50 CHR ''='']\<rparr>) \<and>
   listdir (disk_pics @ [([''pics'', ''jpg files''], Dir),
                         ([''pics'', ''jpg files'', ''x.jpg''], File [255, 216, 7])]) [''out''] = []"
  by (simp add: cli_eval folder_eval disk_pics_def listdir_def)

text \<open>C2: the converted file is not in the output directory.\<close>

theorem output_dir_ignored_for_folder_witness:
  "lookup (fsys (snd (main demo_lib True
                        (args0\<lparr>paths := [[''pics'']], output_dir := Some [''out'']\<rparr>)
                        (start disk_pics)))) [''out'', ''x.jpg''] = None \<and>
   lookup (fsys (snd (main demo_lib True
                        (args0\<lparr>paths := [[''pics'']], output_dir := Some [''out'']\<rparr>)
                        (start disk_pics)))) [''pics'', ''jpg files'', ''x.jpg''] =
     Some (File [255, 216, 7])"
  using output_dir_ignored_for_folder by (simp add: lookup_def disk_pics_def)

text \<open>The same option with the file argument \<open>pics/x.heic\<close>.\<close>

lemma output_dir_only_for_file_arguments_example:
  "main demo_lib True (args0\<lparr>paths := [[''pics'', ''x.heic'']], output_dir := Some [''out'']\<rparr>)
     (start disk_pics) =
   (Returned (1, 0),
    \<lparr>fsys = disk_pics @ [([''out'', ''x.jpg''], File [255, 216, 7])],
     printed = [''  Converted: x.heic -> x.jpg'',
                CHR 0x0A # replicate 50 CHR ''='', ''TOTAL: 1 converted, 0 failed'',
                replicate 50 CHR ''='']\<rparr>) \<and>
   parent [''out'', ''x.jpg''] = [''out'']"
proof -
  let ?a = "args0\<lparr>paths := [[''pics'', ''x.heic'']], output_dir := Some [''out'']\<rparr>"
  have o: "output_dir ?a = Some [''out'']" by simp
  have f: "is_file (fsys (start disk_pics)) [''pics'', ''x.heic'']"
    by (simp add: start_def disk_pics_def is_file_def lookup_def)
  have c: "convert_heic_to_jpg demo_lib [''pics'', ''x.heic''] (output_dir ?a) (quality ?a)
             (start disk_pics) =
           (Returned (Some [''out'', ''x.jpg'']),
            \<lparr>fsys = disk_pics @ [([''out'', ''x.jpg''], File [255, 216, 7])],
             printed = [''  Converted: x.heic -> x.jpg'']\<rparr>)"
    by (simp add: cli_eval disk_pics_def)
  from output_dir_only_for_file_arguments [OF o, where p = "[''pics'', ''x.heic'']"
      and s = "start disk_pics" and lib = demo_lib and t = "[''out'', ''x.jpg'']"
      and ?s1.0 = "\<lparr>fsys = disk_pics @ [([''out'', ''x.jpg''], File [255, 216, 7])],
             printed = [''  Converted: x.heic -> x.jpg'']\<rparr>"] f c
  have "[''out'', ''x.jpg''] = [''out''] @ [jpg_name [''pics'', ''x.heic'']]" by simp
  moreover have "main demo_lib True ?a (start disk_pics) =
   (Returned (1, 0),
    \<lparr>fsys = disk_pics @ [([''out'', ''x.jpg''], File [255, 216, 7])],
     printed = [''  Converted: x.heic -> x.jpg'',
                CHR 0x0A # replicate 50 CHR ''='', ''TOTAL: 1 converted, 0 failed'',
                replicate 50 CHR ''='']\<rparr>)"
    by (simp add: cli_eval disk_pics_def)
  ultimately show ?thesis by (simp add: parent_def)
qed











section \<open>Folder scanning\<close>

text \<open>
  C7 fails on the code where \<open>glob\<close> distinguishes letter case: the name \<open>x.Heic\<close> has the
  extension \<open>.heic\<close> up to case, but none of the four patterns matches it and the folder is
  reported to hold no HEIC file.
\<close>

theorem mixed_case_extension_not_found:
  "endswith (lower ''x.Heic'') ''.heic'' \<and>
   convert_folder demo_lib True [''pics''] False True 95 (start disk_mixed_case) =
     (Returned (0, 0),
      \<lparr>fsys = disk_mixed_case, printed = [''No HEIC files found in: /pics'']\<rparr>)"
  by (simp add: cli_eval folder_eval disk_mixed_case_def)

text \<open>C7: the file is there and nothing is converted or failed.\<close>

theorem mixed_case_extension_not_found_witness:
  "fst (convert_folder demo_lib True [''pics''] False True 95 (start disk_mixed_case)) =
     Returned (0, 0) \<and>
   is_file disk_mixed_case [''pics'', ''x.Heic'']"
  using mixed_case_extension_not_found
  by (simp add: is_file_def disk_mixed_case_def lookup_def)

text \<open>Where \<open>glob\<close> ignores letter case the same folder is converted.\<close>

lemma mixed_case_extension_found_when_insensitive:
  "convert_folder demo_lib False [''pics''] False True 95 (start disk_mixed_case) =
     (Returned (1, 0),
      \<lparr>fsys = disk_mixed_case @
                [([''pics'', ''jpg files''], Dir),
                 ([''pics'', ''jpg files'', ''x.jpg''], File [255, 216, 7])],
       printed = [CHR 0x0A # ''Processing: /pics'', ''Found 1 HEIC file(s)'',
                  ''  Converted: x.Heic -> x.jpg'', ''Completed: 1 converted, 0 failed'']\<rparr>)"
  by (simp add: cli_eval folder_eval disk_mixed_case_def)

text \<open>
  The other parts of C7, for names in ASCII: of \<open>x.heic\<close> and \<open>x.HEIC\<close> one file remains, the
  remaining files have pairwise different lower-cased path strings, every match is
  represented by a remaining file, and the remaining files are processed in sorted order.
  Which of two case variants remains is the one that comes first in the list of matches.
\<close>

lemma case_variants_contribute_one:
  "find_heic True disk_case_variants [''pics''] False = [[''pics'', ''x.heic''], [''pics'', ''b.heif'']] \<and>
   sorted_paths True (find_heic True disk_case_variants [''pics''] False) =
     [[''pics'', ''b.heif''], [''pics'', ''x.heic'']]"
  by (simp add: folder_eval disk_case_variants_def parent_def str_path_def)

lemma unique_files_unseen:
  "f \<in> set (unique_files seen ps) \<Longrightarrow> lower (str_path f) \<notin> seen"
proof (induction ps arbitrary: seen)
  case Nil
  then show ?case by simp
next
  case (Cons a ps)
  show ?case
  proof (cases "lower (str_path a) \<in> seen")
    case True
    with Cons.prems have "f \<in> set (unique_files seen ps)" by simp
    then show ?thesis by (rule Cons.IH)
  next
    case False
    with Cons.prems have "f = a \<or> f \<in> set (unique_files (insert (lower (str_path a)) seen) ps)"
      by simp
    then show ?thesis
    proof
      assume "f = a"
      with False show ?thesis by simp
    next
      assume "f \<in> set (unique_files (insert (lower (str_path a)) seen) ps)"
      then have "lower (str_path f) \<notin> insert (lower (str_path a)) seen" by (rule Cons.IH)
      then show ?thesis by simp
    qed
  qed
qed

lemma unique_files_subset: "set (unique_files seen ps) \<subseteq> set ps"
  by (induction ps arbitrary: seen) auto

lemma unique_files_distinct:
  "distinct (map (\<lambda>f. lower (str_path f)) (unique_files seen ps))"
proof (induction ps arbitrary: seen)
  case Nil
  then show ?case by simp
next
  case (Cons a ps)
  have "lower (str_path g) \<noteq> lower (str_path a)"
    if "g \<in> set (unique_files (insert (lower (str_path a)) seen) ps)" for g
  proof -
    from that have "lower (str_path g) \<notin> insert (lower (str_path a)) seen"
      by (rule unique_files_unseen)
    then show ?thesis by simp
  qed
  then have "lower (str_path a) \<notin> (\<lambda>f. lower (str_path f)) `
          set (unique_files (insert (lower (str_path a)) seen) ps)"
    by force
  with Cons.IH show ?case by simp
qed

lemma unique_files_covers:
  "f \<in> set ps \<Longrightarrow> lower (str_path f) \<notin> seen \<Longrightarrow>
     \<exists>g \<in> set (unique_files seen ps). lower (str_path g) = lower (str_path f)"
proof (induction ps arbitrary: seen)
  case Nil
  then show ?case by simp
next
  case (Cons a ps)
  show ?case
  proof (cases "lower (str_path a) = lower (str_path f)")
    case True
    with Cons.prems(2) show ?thesis by simp
  next
    case False
    with Cons.prems have f: "f \<in> set ps" by auto
    show ?thesis
    proof (cases "lower (str_path a) \<in> seen")
      case True
      with Cons.IH [OF f Cons.prems(2)] show ?thesis by simp
    next
      case na: False
      from False Cons.prems(2) have "lower (str_path f) \<notin> insert (lower (str_path a)) seen"
        by auto
      from Cons.IH [OF f this] na show ?thesis by simp
    qed
  qed
qed

lemma sorted_paths_sorted:
  "sorted (sorted_paths True ps) \<and> set (sorted_paths True ps) = set ps \<and>
   length (sorted_paths True ps) = length ps"
  using sorted_sort_key [of "\<lambda>p. p" ps] by (simp add: sorted_paths_def)

section \<open>The download endpoint\<close>

text \<open>
  Where the session path is absent or a directory, the endpoint does what C8 says: not
  found, empty, or an archive of the regular files under their own names, and nothing but
  the archive file changes on disk.
\<close>

lemma download_not_found:
  "\<not> path_exists d (TEMP_DIR @ [sid]) \<Longrightarrow>
     download_zip z sid d = (Error404 ''Session not found or expired'', d)"
  by (simp add: download_zip_def)

lemma download_empty:
  "is_dir d (TEMP_DIR @ [sid]) \<Longrightarrow> listdir d (TEMP_DIR @ [sid]) = [] \<Longrightarrow>
     download_zip z sid d = (Error404 ''No files to download'', d)"
  by (simp add: download_zip_def path_exists_def is_dir_def)

lemma download_archive:
  assumes "is_dir d (TEMP_DIR @ [sid])" and "listdir d (TEMP_DIR @ [sid]) \<noteq> []"
    and "is_dir d TEMP_DIR" and "\<not> is_dir d (TEMP_DIR @ [sid @ ''.zip''])"
    and "ms = concat (map (\<lambda>fname. case lookup d (TEMP_DIR @ [sid, fname]) of
                              Some (File b) \<Rightarrow> [(fname, b)] | _ \<Rightarrow> [])
                        (listdir d (TEMP_DIR @ [sid])))"
  shows "download_zip z sid d =
           (SendFile (TEMP_DIR @ [sid @ ''.zip'']) ''converted_images.zip'' (z ms),
            AList.update (TEMP_DIR @ [sid @ ''.zip'']) (File (z ms)) d)"
    and "x \<noteq> TEMP_DIR @ [sid @ ''.zip''] \<Longrightarrow>
           lookup (snd (download_zip z sid d)) x = lookup d x"
proof -
  from assms(3,4) have w: "write_file d (TEMP_DIR @ [sid @ ''.zip'']) (z ms) =
      Inr (AList.update (TEMP_DIR @ [sid @ ''.zip'']) (File (z ms)) d)"
    by (simp add: write_file_def parent_def)
  with assms(1,2,5) show r: "download_zip z sid d =
           (SendFile (TEMP_DIR @ [sid @ ''.zip'']) ''converted_images.zip'' (z ms),
            AList.update (TEMP_DIR @ [sid @ ''.zip'']) (File (z ms)) d)"
    by (simp add: download_zip_def path_exists_def is_dir_def Let_def)
  show "x \<noteq> TEMP_DIR @ [sid @ ''.zip''] \<Longrightarrow>
           lookup (snd (download_zip z sid d)) x = lookup d x"
    by (simp add: r lookup_update)
qed

lemmas download_eval = download_zip_def path_exists_def is_dir_def lookup_def listdir_def
  parent_def TEMP_DIR_def disk0_def disk_session_def disk_zipped_def demo_zip_def write_file_def
  Let_def

text \<open>
  C8 fails on the code: after a conversion into session \<open>s1\<close> and its download, the archive
  \<open>s1.zip\<close> lies in the temporary directory; a download of the id \<open>s1.zip\<close>, for which no
  directory exists, passes the existence test and ends in an unhandled exception instead of
  "Session not found".
\<close>

theorem download_of_archive_name_unhandled:
  "snd (convert_files demo_lib ''s1'' form_twice disk0) = disk_session \<and>
   download_zip demo_zip ''s1'' disk_session =
     (SendFile (TEMP_DIR @ [''s1.zip'']) ''converted_images.zip''
        [80, 75, 255, 216, 1, 80, 75, 255, 216, 2], disk_zipped) \<and>
   \<not> is_dir disk_zipped (TEMP_DIR @ [''s1.zip'']) \<and>
   download_zip demo_zip ''s1.zip'' disk_zipped = (Unhandled ''NotADirectoryError'', disk_zipped)"
proof -
  have "snd (convert_files demo_lib ''s1'' form_twice disk0) = disk_session"
    by (simp add: web_eval2 form_twice_def disk_session_def)
  moreover have "download_zip demo_zip ''s1'' disk_session =
     (SendFile (TEMP_DIR @ [''s1.zip'']) ''converted_images.zip''
        [80, 75, 255, 216, 1, 80, 75, 255, 216, 2], disk_zipped)"
    by (simp add: download_eval)
  moreover have "\<not> is_dir disk_zipped (TEMP_DIR @ [''s1.zip''])"
    by (simp add: download_eval)
  moreover have "download_zip demo_zip ''s1.zip'' disk_zipped =
      (Unhandled ''NotADirectoryError'', disk_zipped)"
    by (simp add: download_eval)
  ultimately show ?thesis by simp
qed

text \<open>C8: the three requests in sequence.\<close>

theorem download_of_archive_name_unhandled_witness:
  "fst (download_zip demo_zip ''s1.zip''
          (snd (download_zip demo_zip ''s1''
                  (snd (convert_files demo_lib ''s1'' form_twice disk0))))) =
     Unhandled ''NotADirectoryError''"
  using download_of_archive_name_unhandled by simp

text \<open>A second download of the same session returns the same archive.\<close>

lemma download_twice:
  "download_zip demo_zip ''s1'' disk_zipped =
     (SendFile (TEMP_DIR @ [''s1.zip'']) ''converted_images.zip''
        [80, 75, 255, 216, 1, 80, 75, 255, 216, 2], disk_zipped)"
  by (simp add: download_eval)

end
